theory Spec2Isabelle
  imports Complex_Main "HOL-Library.Word"
begin

section \<open>SLP metadata encoders of \<open>src/lib/util.ts\<close>\<close>

text \<open>
  The library builds the OP_RETURN script of the three SLP messages GENESIS, MINT and SEND.
  A \<open>Buffer\<close> is a list of bytes, a JavaScript string is the list of its UTF-16 code
  units (what \<open>.length\<close> counts and what a regular expression matches), an argument of
  type \<open>string|Buffer\<close> is a tagged value, a \<open>number\<close> is a finite value, NaN or an
  infinity, \<open>number|null\<close> is a \<open>number option\<close>, and every \<open>throw\<close> is an \<open>Inl\<close> of
  the error type below. The argument \<open>versionType\<close> is an \<open>int\<close>: the source only tests
  it for being one of three integer literals, which no other number passes.
\<close>

subsection \<open>Data\<close>

type_synonym byte = "8 word"
type_synonym buffer = "byte list"
type_synonym jsstring = "16 word list"

datatype strbuf = Str jsstring | Buf buffer

text \<open>
  A JavaScript \<open>number\<close>. Minus zero compares, tests and converts like zero in every
  operation the source applies to a number, so it is not kept apart.
\<close>

datatype number = Number rat | NumberNaN | PlusInfinity | MinusInfinity

text \<open>One constructor for each \<open>throw new Error(...)\<close> of the source, in source order.\<close>

datatype error =
    UnsupportedLength          \<comment> \<open>'does not support bigger pushes yet'\<close>
  | NotInteger                 \<comment> \<open>'bn not an integer'\<close>
  | NotPositive                \<comment> \<open>'bn not positive integer'\<close>
  | OutOfRange                 \<comment> \<open>'bn outside of range'\<close>
  | UnknownVersionType         \<comment> \<open>'unknown versionType'\<close>
  | DocumentHashLength         \<comment> \<open>'documentHash must be either 0 or 32 hex bytes'\<close>
  | DocumentHashNotHex         \<comment> \<open>'documentHash must be hex'\<close>
  | DecimalsOutOfRange         \<comment> \<open>'decimals out of range'\<close>
  | MintBatonVoutOutOfRange    \<comment> \<open>'mintBatonVout out of range (0x02 < > 0xFF)'\<close>
  | ChildQuantityNotOne        \<comment> \<open>'quantity must be 1 for NFT1 child genesis'\<close>
  | ChildDecimalsNotZero       \<comment> \<open>'decimals must be 0 for NFT1 child genesis'\<close>
  | ChildMintBatonNotNull      \<comment> \<open>'mintBatonVout must be null for NFT1 child genesis'\<close>
  | TokenIdRegex               \<comment> \<open>'tokenIdHex does not pass regex'\<close>
  | TokenIdLength              \<comment> \<open>'tokenIdHex must be 32 bytes'\<close>
  | TooFewAmounts              \<comment> \<open>'send requires at least one amount'\<close>
  | TooManyAmounts             \<comment> \<open>'too many slp amounts'\<close>

type_synonym 'a result = "error + 'a"

subsection \<open>\<open>pushdata\<close>\<close>

text \<open>\<open>writeUInt16LE\<close> and \<open>writeUInt32LE\<close> into a fresh buffer of 2 and 4 bytes.\<close>

definition writeUInt16LE :: "nat \<Rightarrow> buffer" where
  "writeUInt16LE n = [of_nat (n mod 256), of_nat (n div 256 mod 256)]"

definition writeUInt32LE :: "nat \<Rightarrow> buffer" where
  "writeUInt32LE n =
     [of_nat (n mod 256), of_nat (n div 256 mod 256),
      of_nat (n div 65536 mod 256), of_nat (n div 16777216 mod 256)]"

definition pushdata :: "buffer \<Rightarrow> buffer result" where
  "pushdata buf =
     (if length buf = 0 then Inr [0x4C, 0x00]
      else if length buf < 0x4E then Inr ([of_nat (length buf)] @ buf)
      else if length buf < 0xFF then Inr ([0x4C, of_nat (length buf)] @ buf)
      else if length buf < 0xFFFF then Inr ([0x4D] @ writeUInt16LE (length buf) @ buf)
      else if length buf < 0xFFFFFFFF then Inr ([0x4E] @ writeUInt32LE (length buf) @ buf)
      else Inl UnsupportedLength)"

subsection \<open>Strings, \<open>Buffer.from\<close> and hexadecimal text\<close>

text \<open>A string literal of the source, as UTF-16 code units.\<close>

definition js :: "string \<Rightarrow> jsstring" where
  "js s = map (\<lambda>c. of_nat (of_char c)) s"

text \<open>
  \<open>Buffer.from(string)\<close> encodes in UTF-8: a surrogate pair is one code point of four
  bytes, a lone surrogate is replaced by U+FFFD (EF BF BD).
\<close>

fun utf8Encode :: "jsstring \<Rightarrow> buffer" where
  "utf8Encode [] = []"
| "utf8Encode (u # us) =
     (if unat u < 0x80 then of_nat (unat u) # utf8Encode us
      else if unat u < 0x800 then
        of_nat (0xC0 + unat u div 64) # of_nat (0x80 + unat u mod 64) # utf8Encode us
      else if 0xD800 \<le> unat u \<and> unat u < 0xDC00 then
        (case us of
           [] \<Rightarrow> [0xEF, 0xBF, 0xBD]
         | v # vs \<Rightarrow>
             if 0xDC00 \<le> unat v \<and> unat v < 0xE000 then
               of_nat (0xF0 + (0x10000 + (unat u - 0xD800) * 0x400 + (unat v - 0xDC00)) div 0x40000) #
               of_nat (0x80 + (0x10000 + (unat u - 0xD800) * 0x400 + (unat v - 0xDC00)) div 0x1000 mod 64) #
               of_nat (0x80 + (0x10000 + (unat u - 0xD800) * 0x400 + (unat v - 0xDC00)) div 64 mod 64) #
               of_nat (0x80 + (0x10000 + (unat u - 0xD800) * 0x400 + (unat v - 0xDC00)) mod 64) #
               utf8Encode vs
             else [0xEF, 0xBF, 0xBD] @ utf8Encode us)
      else if 0xDC00 \<le> unat u \<and> unat u < 0xE000 then [0xEF, 0xBF, 0xBD] @ utf8Encode us
      else
        of_nat (0xE0 + unat u div 0x1000) # of_nat (0x80 + unat u div 64 mod 64) #
        of_nat (0x80 + unat u mod 64) # utf8Encode us)"

text \<open>\<open>Buffer.from(x)\<close> for \<open>x: string|Buffer\<close>: a string is encoded, a buffer is copied.\<close>

fun bufferFrom :: "strbuf \<Rightarrow> buffer" where
  "bufferFrom (Str s) = utf8Encode s"
| "bufferFrom (Buf b) = b"

text \<open>\<open>Buffer.from([n])\<close> for an integer \<open>n\<close>: the one byte \<open>n & 255\<close>.\<close>

definition byteOf :: "int \<Rightarrow> byte" where
  "byteOf n = word_of_int n"

text \<open>
  \<open>Buffer.from([x])\<close> for a number \<open>x\<close>: the element is stored as by \<open>ToUint8\<close>, that
  is NaN and the infinities as 0 and a finite value truncated towards zero, modulo 256.
\<close>

fun byteOfNumber :: "number \<Rightarrow> byte" where
  "byteOfNumber (Number r) = word_of_int (if 0 \<le> r then \<lfloor>r\<rfloor> else \<lceil>r\<rceil>)"
| "byteOfNumber _ = 0"

text \<open>
  The comparisons \<open>x < k\<close>, \<open>x > k\<close> and \<open>x === k\<close> of a number with an integer literal:
  all three are false on NaN.
\<close>

fun numLess :: "number \<Rightarrow> int \<Rightarrow> bool" where
  "numLess (Number r) k = (r < of_int k)"
| "numLess MinusInfinity k = True"
| "numLess _ k = False"

fun numGreater :: "number \<Rightarrow> int \<Rightarrow> bool" where
  "numGreater (Number r) k = (of_int k < r)"
| "numGreater PlusInfinity k = True"
| "numGreater _ k = False"

fun numStrictEq :: "number \<Rightarrow> int \<Rightarrow> bool" where
  "numStrictEq (Number r) k = (r = of_int k)"
| "numStrictEq _ k = False"

text \<open>The number that is the integer \<open>n\<close>.\<close>

definition num :: "int \<Rightarrow> number" where
  "num n = Number (of_int n)"

text \<open>The value of a hexadecimal digit \<open>[0-9a-fA-F]\<close>, \<open>None\<close> for any other code unit.\<close>

definition hexValue :: "16 word \<Rightarrow> nat option" where
  "hexValue c =
     (if 0x30 \<le> unat c \<and> unat c \<le> 0x39 then Some (unat c - 0x30)
      else if 0x61 \<le> unat c \<and> unat c \<le> 0x66 then Some (unat c - 0x57)
      else if 0x41 \<le> unat c \<and> unat c \<le> 0x46 then Some (unat c - 0x37)
      else None)"

text \<open>The regular expression \<open>/^[0-9a-fA-F]{64}$/\<close>.\<close>

definition matchHex64 :: "jsstring \<Rightarrow> bool" where
  "matchHex64 s = (length s = 64 \<and> list_all (\<lambda>c. hexValue c \<noteq> None) s)"

text \<open>
  \<open>Buffer.from(s, 'hex')\<close>: one byte for each pair of hexadecimal digits, stopping at the
  first pair that is not one (a last single character is dropped).
\<close>

fun hexDecode :: "jsstring \<Rightarrow> buffer" where
  "hexDecode (a # b # rest) =
     (case (hexValue a, hexValue b) of
        (Some x, Some y) \<Rightarrow> of_nat (16 * x + y) # hexDecode rest
      | _ \<Rightarrow> [])"
| "hexDecode _ = []"

text \<open>\<open>s.padStart(n, c)\<close> for a pad string of one character.\<close>

definition padStart :: "nat \<Rightarrow> 16 word \<Rightarrow> jsstring \<Rightarrow> jsstring" where
  "padStart n c s = replicate (n - length s) c @ s"

subsection \<open>The \<open>bignumber.js\<close> values the source uses\<close>

text \<open>
  A \<open>BN\<close> is not-a-number, an infinity, or a finite decimal with a sign; the library keeps
  the sign of zero, so minus zero is a value of its own beside the finite numbers.
  \<open>isInteger\<close> is false on NaN and the infinities, \<open>isPositive\<close> is the test that the
  sign is plus (true for zero, false for minus zero and NaN), \<open>isEqualTo\<close> compares
  numerically (minus zero equals zero, NaN equals nothing).
\<close>

datatype BN = NaN | PosInfinity | NegInfinity | NegZero | Finite rat

fun isInteger :: "BN \<Rightarrow> bool" where
  "isInteger (Finite r) = (of_int \<lfloor>r\<rfloor> = r)"
| "isInteger NegZero = True"
| "isInteger _ = False"

fun isPositive :: "BN \<Rightarrow> bool" where
  "isPositive (Finite r) = (0 \<le> r)"
| "isPositive PosInfinity = True"
| "isPositive _ = False"

fun isEqualTo :: "BN \<Rightarrow> int \<Rightarrow> bool" where
  "isEqualTo (Finite r) n = (r = of_int n)"
| "isEqualTo NegZero n = (n = 0)"
| "isEqualTo _ n = False"

text \<open>The digits \<open>0123456789abcdef\<close> of the library's alphabet.\<close>

definition hexDigit :: "nat \<Rightarrow> 16 word" where
  "hexDigit d = (if d < 10 then of_nat (0x30 + d) else of_nat (0x57 + d))"

fun toHex :: "nat \<Rightarrow> jsstring" where
  "toHex n = (if n < 16 then [hexDigit n] else toHex (n div 16) @ [hexDigit (n mod 16)])"

declare toHex.simps [simp del]

text \<open>
  \<open>bn.toString(16)\<close>. The source calls it after \<open>isInteger\<close> and \<open>isPositive\<close> have
  passed, that is on a finite integer that is not negative, where it is the shortest
  hexadecimal numeral; how the library prints signs, fractions, NaN and the infinities is
  never used and is left out.
\<close>

fun toString16 :: "BN \<Rightarrow> jsstring" where
  "toString16 (Finite r) = toHex (nat \<lfloor>r\<rfloor>)"
| "toString16 _ = []"

text \<open>\<open>new BN(n)\<close> for an integer \<open>n\<close>.\<close>

definition bnOfInt :: "int \<Rightarrow> BN" where
  "bnOfInt n = Finite (of_int n)"

subsection \<open>\<open>BNToInt64BE\<close>\<close>

definition BNToInt64BE :: "BN \<Rightarrow> buffer result" where
  "BNToInt64BE bn =
     (if \<not> isInteger bn then Inl NotInteger
      else if \<not> isPositive bn then Inl NotPositive
      else if length (toString16 bn) > 16 then Inl OutOfRange
      else Inr (hexDecode (padStart 16 0x30 (toString16 bn))))"

text \<open>The number a buffer denotes when read as a big-endian unsigned integer.\<close>

definition readBE :: "buffer \<Rightarrow> nat" where
  "readBE bs = foldl (\<lambda>a b. 256 * a + unat b) 0 bs"

subsection \<open>The three message encoders\<close>

text \<open>
  \<open>Buffer.concat([e1, e2, ...])\<close>: the elements of the array literal are evaluated from
  left to right, so the first one that throws decides the error; otherwise the buffers
  are joined in order.
\<close>

fun concatResults :: "buffer result list \<Rightarrow> buffer result" where
  "concatResults [] = Inr []"
| "concatResults (Inl e # rs) = Inl e"
| "concatResults (Inr b # rs) =
     (case concatResults rs of Inl e \<Rightarrow> Inl e | Inr bs \<Rightarrow> Inr (b @ bs))"

text \<open>\<open>pushdata(BNToInt64BE(v))\<close>: the inner call is evaluated first.\<close>

definition pushInt64 :: "BN \<Rightarrow> buffer result" where
  "pushInt64 v = (case BNToInt64BE v of Inl e \<Rightarrow> Inl e | Inr b \<Rightarrow> pushdata b)"

text \<open>Lines 54 to 67: the checks on \<open>documentHash\<close> and its conversion to a buffer.\<close>

fun checkDocumentHash :: "strbuf \<Rightarrow> buffer result" where
  "checkDocumentHash (Str s) =
     (if length s \<noteq> 0 \<and> length s \<noteq> 64 then Inl DocumentHashLength
      else if length s = 64 \<and> \<not> matchHex64 s then Inl DocumentHashNotHex
      else Inr (hexDecode s))"
| "checkDocumentHash (Buf b) =
     (if length b \<noteq> 0 \<and> length b \<noteq> 32 then Inl DocumentHashLength
      else Inr b)"

text \<open>Lines 119 to 133 and, word for word, 163 to 177: the checks on \<open>tokenIdHex\<close>.\<close>

fun checkTokenId :: "strbuf \<Rightarrow> buffer result" where
  "checkTokenId (Str s) =
     (if \<not> matchHex64 s then Inl TokenIdRegex
      else if length s \<noteq> 64 then Inl TokenIdLength
      else Inr (hexDecode s))"
| "checkTokenId (Buf b) =
     (if length b \<noteq> 32 then Inl TokenIdLength
      else Inr b)"

definition createOpReturnGenesis ::
  "int \<Rightarrow> strbuf \<Rightarrow> strbuf \<Rightarrow> strbuf \<Rightarrow> strbuf \<Rightarrow> number \<Rightarrow> number option \<Rightarrow> BN \<Rightarrow>
   buffer result" where
  "createOpReturnGenesis versionType ticker name documentUrl documentHash decimals
       mintBatonVout quantity =
     (if versionType \<notin> set [0x01, 0x41, 0x81] then Inl UnknownVersionType
      else case checkDocumentHash documentHash of
        Inl e \<Rightarrow> Inl e
      | Inr documentHash' \<Rightarrow>
          if numLess decimals 0 \<or> numGreater decimals 9 then Inl DecimalsOutOfRange
          else if (case mintBatonVout of
                     None \<Rightarrow> False
                   | Some v \<Rightarrow> numLess v 2 \<or> numGreater v 0xFF)
            then Inl MintBatonVoutOutOfRange
          else if versionType = 0x41 \<and> \<not> isEqualTo quantity 1 then Inl ChildQuantityNotOne
          else if versionType = 0x41 \<and> \<not> numStrictEq decimals 0
            then Inl ChildDecimalsNotZero
          else if versionType = 0x41 \<and> mintBatonVout \<noteq> None then Inl ChildMintBatonNotNull
          else concatResults
            [Inr [0x6A],
             pushdata (bufferFrom (Str (js ''SLP'' @ [0]))),
             pushdata [byteOf versionType],
             pushdata (bufferFrom (Str (js ''GENESIS''))),
             pushdata (bufferFrom ticker),
             pushdata (bufferFrom name),
             pushdata (bufferFrom documentUrl),
             pushdata documentHash',
             pushdata [byteOfNumber decimals],
             pushdata (case mintBatonVout of None \<Rightarrow> [] | Some v \<Rightarrow> [byteOfNumber v]),
             pushInt64 quantity])"

definition createOpReturnMint ::
  "int \<Rightarrow> strbuf \<Rightarrow> number option \<Rightarrow> BN \<Rightarrow> buffer result" where
  "createOpReturnMint versionType tokenIdHex mintBatonVout quantity =
     (if versionType \<notin> set [0x01, 0x41, 0x81] then Inl UnknownVersionType
      else case checkTokenId tokenIdHex of
        Inl e \<Rightarrow> Inl e
      | Inr tokenIdHex' \<Rightarrow>
          if (case mintBatonVout of
                None \<Rightarrow> False
              | Some v \<Rightarrow> numLess v 2 \<or> numGreater v 0xFF)
            then Inl MintBatonVoutOutOfRange
          else concatResults
            [Inr [0x6A],
             pushdata (bufferFrom (Str (js ''SLP'' @ [0]))),
             pushdata [byteOf versionType],
             pushdata (bufferFrom (Str (js ''MINT''))),
             pushdata tokenIdHex',
             pushdata (case mintBatonVout of None \<Rightarrow> [] | Some v \<Rightarrow> [byteOfNumber v]),
             pushInt64 quantity])"

definition createOpReturnSend :: "int \<Rightarrow> strbuf \<Rightarrow> BN list \<Rightarrow> buffer result" where
  "createOpReturnSend versionType tokenIdHex slpAmounts =
     (if versionType \<notin> set [0x01, 0x41, 0x81] then Inl UnknownVersionType
      else case checkTokenId tokenIdHex of
        Inl e \<Rightarrow> Inl e
      | Inr tokenIdHex' \<Rightarrow>
          if length slpAmounts < 1 then Inl TooFewAmounts
          else if length slpAmounts > 19 then Inl TooManyAmounts
          else concatResults
            ([Inr [0x6A],
              pushdata (bufferFrom (Str (js ''SLP'' @ [0]))),
              pushdata [byteOf versionType],
              pushdata (bufferFrom (Str (js ''SEND''))),
              pushdata tokenIdHex'] @
             map pushInt64 slpAmounts))"

text \<open>The three errors of the child rule of GENESIS (lines 78 to 90).\<close>

fun isInvalidChildGenesisParams :: "error \<Rightarrow> bool" where
  "isInvalidChildGenesisParams ChildQuantityNotOne = True"
| "isInvalidChildGenesisParams ChildDecimalsNotZero = True"
| "isInvalidChildGenesisParams ChildMintBatonNotNull = True"
| "isInvalidChildGenesisParams _ = False"

subsection \<open>Valid arguments\<close>

text \<open>
  The conditions under which the checks on \<open>versionType\<close>, \<open>documentHash\<close> and
  \<open>tokenIdHex\<close> pass: a version type of 0x01, 0x41 or 0x81; a document hash that is
  empty or 32 bytes, as a buffer or as 64 hexadecimal digits; a token id of 32 bytes, as
  a buffer or as 64 hexadecimal digits.
\<close>

definition validDocumentHash :: "strbuf \<Rightarrow> bool" where
  "validDocumentHash h =
     (case h of Str s \<Rightarrow> length s = 0 \<or> matchHex64 s | Buf b \<Rightarrow> length b = 0 \<or> length b = 32)"

definition validTokenId :: "strbuf \<Rightarrow> bool" where
  "validTokenId t = (case t of Str s \<Rightarrow> matchHex64 s | Buf b \<Rightarrow> length b = 32)"

definition validVersionType :: "int \<Rightarrow> bool" where
  "validVersionType v = (v = 0x01 \<or> v = 0x41 \<or> v = 0x81)"

text \<open>
  A number lies in the range from \<open>lo\<close> to \<open>hi\<close>: a finite value between the bounds.
  NaN and the infinities lie in no range.
\<close>

fun inRange :: "int \<Rightarrow> int \<Rightarrow> number \<Rightarrow> bool" where
  "inRange lo hi (Number r) = (of_int lo \<le> r \<and> r \<le> of_int hi)"
| "inRange lo hi _ = False"

subsection \<open>Properties of \<open>pushdata\<close>\<close>

lemma byte_of_nat_unat: "n < 256 \<Longrightarrow> unat (of_nat n :: byte) = n"
  by (simp add: unat_of_nat)

text \<open>
  C4. The empty buffer is pushed as the two bytes 4C 00; a buffer of 1 to 77 bytes as one
  byte holding its length, then the buffer; a buffer of 78 to 254 bytes as the marker 4C,
  one byte holding its length, then the buffer.
\<close>

theorem pushdata_short:
  "(length B = 0 \<longrightarrow> pushdata B = Inr [0x4C, 0x00]) \<and>
   (1 \<le> length B \<and> length B \<le> 77 \<longrightarrow>
      (\<exists>l. pushdata B = Inr (l # B) \<and> unat l = length B)) \<and>
   (78 \<le> length B \<and> length B \<le> 254 \<longrightarrow>
      (\<exists>l. pushdata B = Inr (0x4C # l # B) \<and> unat l = length B))"
  by (auto simp: pushdata_def byte_of_nat_unat)

theorem pushdata_short_witness:
  "pushdata [] = Inr [0x4C, 0x00] \<and>
   pushdata [0xAB] = Inr [0x01, 0xAB] \<and>
   pushdata (replicate 77 0x11) = Inr (0x4D # replicate 77 0x11) \<and>
   pushdata (replicate 78 0x11) = Inr (0x4C # 0x4E # replicate 78 0x11) \<and>
   pushdata (replicate 254 0x11) = Inr (0x4C # 0xFE # replicate 254 0x11)"
proof -
  have u: "\<And>l n. unat (l :: byte) = n \<Longrightarrow> l = of_nat n"
    by auto
  show ?thesis
    using pushdata_short [of "[]"] pushdata_short [of "[0xAB]"]
      pushdata_short [of "replicate 77 0x11"] pushdata_short [of "replicate 78 0x11"]
      pushdata_short [of "replicate 254 0x11"]
    by (auto dest!: u)
qed

lemma uint16le_sum:
  assumes "n < 65536"
  shows "n mod 256 + 256 * (n div 256 mod 256) = (n::nat)"
proof -
  have "n div 256 < 256" using assms by simp
  then have "n div 256 mod 256 = n div 256" by simp
  then show ?thesis by simp
qed

lemma uint32le_sum:
  assumes "n < 4294967296"
  shows "n mod 256 + 256 * (n div 256 mod 256) + 65536 * (n div 65536 mod 256) +
   16777216 * (n div 16777216 mod 256) = (n::nat)"
proof -
  define a where "a = n div 256"
  define b where "b = a div 256"
  define c where "c = b div 256"
  have b: "n div 65536 = b"
    using div_mult2_eq [of n 256 256] by (simp add: a_def b_def)
  have c: "n div 16777216 = c"
    using div_mult2_eq [of n 65536 256] b by (simp add: c_def)
  have "c < 256" using assms c by simp
  then have c': "c mod 256 = c" by simp
  have 1: "n = n mod 256 + 256 * a" by (simp add: a_def)
  have 2: "a = a mod 256 + 256 * b" by (simp add: b_def)
  have 3: "b = b mod 256 + 256 * c" by (simp add: c_def)
  have "n mod 256 + 256 * (a mod 256) + 65536 * (b mod 256) + 16777216 * c = n"
    using 1 2 3 by linarith
  then show ?thesis by (simp only: a_def [symmetric] b c c')
qed

lemma byte_mod_unat: "unat (of_nat (n mod 256) :: byte) = n mod 256"
  by (simp add: unat_of_nat)

text \<open>
  C2, as the code has it. Every length test of \<open>pushdata\<close> is strict, so the two-byte
  form (marker 4D, little-endian length) covers the lengths 255 to 65534, the four-byte
  form (marker 4E) the lengths 65535 to 4294967294, and the push fails, always with
  \<open>UnsupportedLength\<close>, exactly from length 4294967295 on.
\<close>

theorem pushdata_long:
  "(255 \<le> length B \<and> length B \<le> 65534 \<longrightarrow>
      (\<exists>b0 b1. pushdata B = Inr (0x4D # b0 # b1 # B) \<and>
         unat b0 + 256 * unat b1 = length B)) \<and>
   (65535 \<le> length B \<and> length B \<le> 4294967294 \<longrightarrow>
      (\<exists>b0 b1 b2 b3. pushdata B = Inr (0x4E # b0 # b1 # b2 # b3 # B) \<and>
         unat b0 + 256 * unat b1 + 65536 * unat b2 + 16777216 * unat b3 = length B)) \<and>
   (pushdata B = Inl UnsupportedLength) = (4294967295 \<le> length B) \<and>
   (isl (pushdata B) \<longrightarrow> pushdata B = Inl UnsupportedLength)"
proof (intro conjI impI)
  assume h: "255 \<le> length B \<and> length B \<le> 65534"
  then have "pushdata B =
      Inr (0x4D # of_nat (length B mod 256) # of_nat (length B div 256 mod 256) # B)"
    by (auto simp: pushdata_def writeUInt16LE_def)
  moreover have "unat (of_nat (length B mod 256) :: byte) +
      256 * unat (of_nat (length B div 256 mod 256) :: byte) = length B"
  proof -
    from h have "length B < 65536" by simp
    then show ?thesis by (simp only: byte_mod_unat uint16le_sum)
  qed
  ultimately show "\<exists>b0 b1. pushdata B = Inr (0x4D # b0 # b1 # B) \<and>
      unat b0 + 256 * unat b1 = length B"
    by blast
next
  assume h: "65535 \<le> length B \<and> length B \<le> 4294967294"
  then have "pushdata B =
      Inr (0x4E # of_nat (length B mod 256) # of_nat (length B div 256 mod 256) #
        of_nat (length B div 65536 mod 256) # of_nat (length B div 16777216 mod 256) # B)"
    by (auto simp: pushdata_def writeUInt32LE_def)
  moreover have "unat (of_nat (length B mod 256) :: byte) +
      256 * unat (of_nat (length B div 256 mod 256) :: byte) +
      65536 * unat (of_nat (length B div 65536 mod 256) :: byte) +
      16777216 * unat (of_nat (length B div 16777216 mod 256) :: byte) = length B"
  proof -
    from h have "length B < 4294967296" by simp
    then show ?thesis by (simp only: byte_mod_unat uint32le_sum)
  qed
  ultimately show "\<exists>b0 b1 b2 b3. pushdata B = Inr (0x4E # b0 # b1 # b2 # b3 # B) \<and>
      unat b0 + 256 * unat b1 + 65536 * unat b2 + 16777216 * unat b3 = length B"
    by blast
next
  show "(pushdata B = Inl UnsupportedLength) = (4294967295 \<le> length B)"
    by (auto simp: pushdata_def)
next
  assume "isl (pushdata B)"
  then show "pushdata B = Inl UnsupportedLength"
    by (auto simp: pushdata_def split: if_splits)
qed

text \<open>
  The ranges as C2 words them do not hold: a buffer of 65535 bytes gets the four-byte form,
  and a buffer of 4294967295 bytes, below 4294967296, is refused.
\<close>

theorem pushdata_long_counterexample:
  "pushdata (replicate 65535 0) = Inr ([0x4E, 0xFF, 0xFF, 0x00, 0x00] @ replicate 65535 0) \<and>
   pushdata (replicate 65535 0) \<noteq> Inr ([0x4D, 0xFF, 0xFF] @ replicate 65535 0) \<and>
   pushdata (replicate 4294967295 0) = Inl UnsupportedLength \<and>
   \<not> 4294967296 \<le> length (replicate 4294967295 (0::byte))"
  by (simp add: pushdata_def writeUInt32LE_def)

theorem pushdata_long_witness:
  "(\<exists>b0 b1. pushdata (replicate 255 0) = Inr (0x4D # b0 # b1 # replicate 255 0) \<and>
      unat b0 + 256 * unat b1 = 255) \<and>
   (\<exists>b0 b1 b2 b3. pushdata (replicate 65535 0) =
        Inr (0x4E # b0 # b1 # b2 # b3 # replicate 65535 0) \<and>
      unat b0 + 256 * unat b1 + 65536 * unat b2 + 16777216 * unat b3 = 65535) \<and>
   pushdata (replicate 4294967295 0) = Inl UnsupportedLength \<and>
   pushdata (replicate 4294967294 0) \<noteq> Inl UnsupportedLength"
proof (intro conjI)
  show "\<exists>b0 b1. pushdata (replicate 255 0) = Inr (0x4D # b0 # b1 # replicate 255 0) \<and>
      unat b0 + 256 * unat b1 = 255"
    using pushdata_long [of "replicate 255 0", THEN conjunct1] by simp
  show "\<exists>b0 b1 b2 b3. pushdata (replicate 65535 0) =
        Inr (0x4E # b0 # b1 # b2 # b3 # replicate 65535 0) \<and>
      unat b0 + 256 * unat b1 + 65536 * unat b2 + 16777216 * unat b3 = 65535"
    using pushdata_long [of "replicate 65535 0", THEN conjunct2, THEN conjunct1] by simp
  show "pushdata (replicate 4294967295 0) = Inl UnsupportedLength"
    using pushdata_long [of "replicate 4294967295 0", THEN conjunct2, THEN conjunct2,
      THEN conjunct1] by simp
  show "pushdata (replicate 4294967294 0) \<noteq> Inl UnsupportedLength"
    using pushdata_long [of "replicate 4294967294 0", THEN conjunct2, THEN conjunct2,
      THEN conjunct1] by simp
qed

text \<open>
  C5 asks for \<open>[4C, length] @ B\<close> from length 76 (0x4C) on. The code compares with 0x4E,
  so buffers of 76 and 77 bytes get the bare length byte, 4C and 4D, which are the markers
  of the one-byte and two-byte length forms.
\<close>

theorem pushdata_76:
  "pushdata (replicate 76 0xAA) = Inr ([0x4C] @ replicate 76 0xAA) \<and>
   pushdata (replicate 76 0xAA) \<noteq> Inr ([0x4C, 0x4C] @ replicate 76 0xAA) \<and>
   pushdata (replicate 77 0xAA) = Inr ([0x4D] @ replicate 77 0xAA) \<and>
   pushdata (replicate 77 0xAA) \<noteq> Inr ([0x4C, 0x4D] @ replicate 77 0xAA)"
proof -
  have ne: "replicate n (0xAA :: byte) \<noteq> b # replicate n 0xAA" for n b
    by (metis length_Cons length_replicate n_not_Suc_n)
  show ?thesis
    by (simp add: pushdata_def ne)
qed

subsection \<open>Hexadecimal text and \<open>BNToInt64BE\<close>\<close>

lemma hexValue_lt: "hexValue c = Some x \<Longrightarrow> x < 16"
  by (auto simp: hexValue_def split: if_splits)

lemma hexValue_hexDigit: "d < 16 \<Longrightarrow> hexValue (hexDigit d) = Some d"
  by (auto simp: hexValue_def hexDigit_def unat_of_nat simp del: of_nat_add)

lemma hexDecode_foldl:
  "list_all (\<lambda>c. hexValue c \<noteq> None) s \<Longrightarrow> even (length s) \<Longrightarrow>
   foldl (\<lambda>a b. 256 * a + unat b) a (hexDecode s) = foldl (\<lambda>a c. 16 * a + the (hexValue c)) a s"
proof (induction s arbitrary: a rule: hexDecode.induct)
  case (1 c d rest)
  from "1.prems" obtain x y where xy: "hexValue c = Some x" "hexValue d = Some y"
    by auto
  then have "x < 16" "y < 16" by (auto dest: hexValue_lt)
  then have u: "unat (of_nat (16 * x + y) :: byte) = 16 * x + y"
    by (simp add: unat_of_nat del: of_nat_add of_nat_mult)
  from "1.prems" have r: "list_all (\<lambda>c. hexValue c \<noteq> None) rest" "even (length rest)"
    by auto
  show ?case
    using "1.IH" [OF refl xy r, of "256 * a + (16 * x + y)"] xy u
    by (simp add: algebra_simps)
qed simp_all

lemma hexDecode_length:
  "list_all (\<lambda>c. hexValue c \<noteq> None) s \<Longrightarrow> length (hexDecode s) = length s div 2"
  by (induction s rule: hexDecode.induct) auto

lemma toHex_hex: "list_all (\<lambda>c. hexValue c \<noteq> None) (toHex n)"
  by (induction n rule: toHex.induct) (subst toHex.simps, auto simp: hexValue_hexDigit)

lemma foldl_hex_toHex: "foldl (\<lambda>a c. 16 * a + the (hexValue c)) 0 (toHex n) = n"
  by (induction n rule: toHex.induct) (subst toHex.simps, auto simp: hexValue_hexDigit)

lemma toHex_length_pos: "0 < length (toHex n)"
  by (subst toHex.simps) simp

lemma toHex_length_le: "0 < k \<Longrightarrow> (length (toHex n) \<le> k) = (n < 16 ^ k)"
proof (induction n arbitrary: k rule: toHex.induct)
  case (1 n)
  show ?case
  proof (cases "n < 16")
    case True
    have "(16::nat) ^ 1 \<le> 16 ^ k" using "1.prems" by (intro power_increasing) auto
    with True have "n < 16 ^ k" by simp
    moreover have "length (toHex n) = 1" using True by (subst toHex.simps) simp
    ultimately show ?thesis using "1.prems" by simp
  next
    case False
    have len: "length (toHex n) = Suc (length (toHex (n div 16)))"
      using False by (subst toHex.simps) simp
    show ?thesis
    proof (cases "k = 1")
      case True
      then show ?thesis using False len toHex_length_pos [of "n div 16"] by simp
    next
      case k: False
      then obtain j where j: "k = Suc j" "0 < j" using "1.prems" by (cases k) auto
      have "(n div 16 < 16 ^ j) = (n < 16 ^ k)"
        unfolding j by (simp add: div_less_iff_less_mult mult.commute)
      then show ?thesis using "1.IH" [OF False j(2)] len j by simp
    qed
  qed
qed

lemma readBE_hexDecode:
  "list_all (\<lambda>c. hexValue c \<noteq> None) s \<Longrightarrow> even (length s) \<Longrightarrow>
   readBE (hexDecode s) = foldl (\<lambda>a c. 16 * a + the (hexValue c)) 0 s"
  unfolding readBE_def by (rule hexDecode_foldl)

lemma hexValue_zero: "hexValue 0x30 = Some 0"
  by (simp add: hexValue_def)

lemma foldl_hex_zeros: "foldl (\<lambda>a c. 16 * a + the (hexValue c)) 0 (replicate k 0x30) = 0"
  by (induction k) (simp_all add: hexValue_zero)

lemma padStart_toHex_hex: "list_all (\<lambda>c. hexValue c \<noteq> None) (padStart k 0x30 (toHex n))"
  using toHex_hex [of n] by (auto simp: padStart_def list_all_iff hexValue_zero)

lemma padStart_length: "length s \<le> k \<Longrightarrow> length (padStart k c s) = k"
  by (simp add: padStart_def)

lemma BNToInt64BE_nat:
  assumes "n < 2 ^ 64"
  shows "\<exists>bs. BNToInt64BE (Finite (of_nat n)) = Inr bs \<and> length bs = 8 \<and> readBE bs = n"
proof -
  let ?h = "toHex n"
  let ?p = "padStart 16 0x30 ?h"
  have "n < 16 ^ 16" using assms by simp
  then have len: "length ?h \<le> 16" by (simp add: toHex_length_le)
  have plen: "length ?p = 16" using len by (rule padStart_length)
  have hex: "list_all (\<lambda>c. hexValue c \<noteq> None) ?p" by (rule padStart_toHex_hex)
  have l8: "length (hexDecode ?p) = 8" using hexDecode_length [OF hex] plen by simp
  have "readBE (hexDecode ?p) = foldl (\<lambda>a c. 16 * a + the (hexValue c)) 0 ?p"
    using hex plen by (intro readBE_hexDecode) simp_all
  also have "\<dots> = n"
    by (simp add: padStart_def foldl_hex_zeros foldl_hex_toHex)
  finally have v: "readBE (hexDecode ?p) = n" .
  have "BNToInt64BE (Finite (of_nat n)) = Inr (hexDecode ?p)"
    using len by (simp add: BNToInt64BE_def)
  with l8 v show ?thesis by simp
qed

lemma BNToInt64BE_length:
  assumes "BNToInt64BE bn = Inr bs"
  shows "length bs = 8"
proof -
  from assms obtain r where bn: "bn = Finite r" and int: "of_int \<lfloor>r\<rfloor> = r" and pos: "0 \<le> r"
    by (cases bn) (auto simp: BNToInt64BE_def split: if_splits)
  let ?p = "padStart 16 0x30 (toHex (nat \<lfloor>r\<rfloor>))"
  from assms bn have len: "length (toHex (nat \<lfloor>r\<rfloor>)) \<le> 16" and bs: "bs = hexDecode ?p"
    by (auto simp: BNToInt64BE_def split: if_splits)
  have "length ?p = 16" using len by (rule padStart_length)
  with hexDecode_length [OF padStart_toHex_hex, of 16 "nat \<lfloor>r\<rfloor>"] bs show ?thesis
    by simp
qed

text \<open>
  The hexadecimal rendering is reached only on a finite integer that is not negative, and
  the values that are no such number are refused before it: NaN and the infinities as not
  integers, minus zero as not positive.
\<close>

lemma toString16_reached:
  assumes "isInteger bn" "isPositive bn"
  shows "\<exists>r. bn = Finite r \<and> 0 \<le> r \<and> r \<in> \<int>"
proof (cases bn)
  case (Finite r)
  with assms have "0 \<le> r" and "of_int \<lfloor>r\<rfloor> = r"
    by (simp_all del: of_int_floor_cancel)
  then have "r \<in> \<int>" by (metis Ints_of_int)
  with Finite \<open>0 \<le> r\<close> show ?thesis by simp
qed (use assms in simp_all)

lemma BNToInt64BE_special:
  "BNToInt64BE NaN = Inl NotInteger"
  "BNToInt64BE PosInfinity = Inl NotInteger"
  "BNToInt64BE NegInfinity = Inl NotInteger"
  "BNToInt64BE NegZero = Inl NotPositive"
  by (simp_all add: BNToInt64BE_def)

text \<open>
  C3. For an integer \<open>n\<close> from 0 to \<open>2^64 - 1\<close> the encoder returns exactly 8 bytes
  whose big-endian reading is \<open>n\<close>. It fails with \<open>NotInteger\<close> on a number with a
  fractional part, with \<open>NotPositive\<close> on a negative integer (a negative number of any
  kind fails), and with \<open>OutOfRange\<close> on an integer above \<open>2^64 - 1\<close>.
\<close>

theorem BNToInt64BE_spec:
  "(0 \<le> n \<and> n \<le> 2 ^ 64 - 1 \<longrightarrow>
      (\<exists>bs. BNToInt64BE (bnOfInt n) = Inr bs \<and> length bs = 8 \<and> int (readBE bs) = n)) \<and>
   (r \<notin> \<int> \<longrightarrow> BNToInt64BE (Finite r) = Inl NotInteger) \<and>
   (n < 0 \<longrightarrow> BNToInt64BE (bnOfInt n) = Inl NotPositive) \<and>
   (r < 0 \<longrightarrow> isl (BNToInt64BE (Finite r))) \<and>
   (2 ^ 64 - 1 < n \<longrightarrow> BNToInt64BE (bnOfInt n) = Inl OutOfRange)"
proof (intro conjI impI)
  assume "0 \<le> n \<and> n \<le> 2 ^ 64 - 1"
  then have "nat n < 2 ^ 64" and "of_nat (nat n) = (of_int n :: rat)"
    by (simp_all add: nat_less_iff)
  with BNToInt64BE_nat [of "nat n"]
  show "\<exists>bs. BNToInt64BE (bnOfInt n) = Inr bs \<and> length bs = 8 \<and> int (readBE bs) = n"
    by (auto simp: bnOfInt_def)
next
  assume "r \<notin> \<int>"
  then have "of_int \<lfloor>r\<rfloor> \<noteq> r" by (metis Ints_of_int)
  then show "BNToInt64BE (Finite r) = Inl NotInteger"
    by (simp add: BNToInt64BE_def del: of_int_floor_cancel)
next
  assume "n < 0"
  then show "BNToInt64BE (bnOfInt n) = Inl NotPositive" by (simp add: BNToInt64BE_def bnOfInt_def)
next
  assume "r < 0"
  then show "isl (BNToInt64BE (Finite r))" by (simp add: BNToInt64BE_def)
next
  assume "2 ^ 64 - 1 < n"
  then have "\<not> nat n < 16 ^ 16" by simp
  then have "\<not> length (toHex (nat n)) \<le> 16" by (simp add: toHex_length_le)
  moreover have "0 \<le> n" using \<open>2 ^ 64 - 1 < n\<close> by simp
  ultimately show "BNToInt64BE (bnOfInt n) = Inl OutOfRange"
    by (simp add: BNToInt64BE_def bnOfInt_def)
qed

theorem BNToInt64BE_spec_witness:
  "BNToInt64BE (bnOfInt 1000) = Inr [0, 0, 0, 0, 0, 0, 0x03, 0xE8] \<and>
   length [0, 0, 0, 0, 0, 0, 0x03, 0xE8 :: byte] = 8 \<and>
   readBE [0, 0, 0, 0, 0, 0, 0x03, 0xE8] = 1000 \<and>
   BNToInt64BE (Finite (3 / 2)) = Inl NotInteger \<and>
   BNToInt64BE (bnOfInt (- 5)) = Inl NotPositive \<and>
   isl (BNToInt64BE (Finite (- 1 / 2))) \<and>
   BNToInt64BE (bnOfInt (2 ^ 64)) = Inl OutOfRange"
proof -
  have f: "(3 / 2 :: rat) \<notin> \<int>"
  proof
    assume "(3 / 2 :: rat) \<in> \<int>"
    then obtain k where k: "(3 / 2 :: rat) = of_int k" by (auto elim: Ints_cases)
    then have "(of_int (2 * k) :: rat) = of_int 3" by simp
    then have "2 * k = 3" by (simp only: of_int_eq_iff)
    then show False by presburger
  qed
  have e: "BNToInt64BE (bnOfInt 1000) = Inr [0, 0, 0, 0, 0, 0, 0x03, 0xE8]"
    by code_simp
  have v: "readBE [0, 0, 0, 0, 0, 0, 0x03, 0xE8] = 1000"
    by (simp add: readBE_def)
  show ?thesis
    using BNToInt64BE_spec [of 1000 "3 / 2"] BNToInt64BE_spec [of "- 5" "- 1 / 2"]
      BNToInt64BE_spec [of "2 ^ 64" 0] f e v
    by simp
qed

subsection \<open>The message encoders\<close>

lemma concatResults_Cons_Inr:
  "(concatResults (r # rs) = Inr buf) =
   (\<exists>b bs. r = Inr b \<and> concatResults rs = Inr bs \<and> buf = b @ bs)"
  by (cases r) (auto split: sum.splits)

lemma concatResults_Nil_Inr: "(concatResults [] = Inr buf) = (buf = [])"
  by auto

lemma concatResults_all_Inr:
  "(\<And>r. r \<in> set rs \<Longrightarrow> \<exists>b. r = Inr b) \<Longrightarrow> \<exists>buf. concatResults rs = Inr buf"
proof (induction rs)
  case Nil
  then show ?case by simp
next
  case (Cons r rs)
  then obtain b where "r = Inr b" by auto
  moreover from Cons obtain bs where "concatResults rs = Inr bs" by auto
  ultimately show ?case by simp
qed

lemma lit_SLP: "bufferFrom (Str (js ''SLP'' @ [0])) = [0x53, 0x4C, 0x50, 0x00]"
  by (simp add: js_def)

lemma lit_GENESIS: "bufferFrom (Str (js ''GENESIS'')) = [0x47, 0x45, 0x4E, 0x45, 0x53, 0x49, 0x53]"
  by (simp add: js_def)

lemma lit_MINT: "bufferFrom (Str (js ''MINT'')) = [0x4D, 0x49, 0x4E, 0x54]"
  by (simp add: js_def)

lemma lit_SEND: "bufferFrom (Str (js ''SEND'')) = [0x53, 0x45, 0x4E, 0x44]"
  by (simp add: js_def)

lemma pushdata_SLP: "pushdata [0x53, 0x4C, 0x50, 0x00] = Inr [0x04, 0x53, 0x4C, 0x50, 0x00]"
  by (simp add: pushdata_def)

lemma pushdata_GENESIS:
  "pushdata [0x47, 0x45, 0x4E, 0x45, 0x53, 0x49, 0x53] =
   Inr [0x07, 0x47, 0x45, 0x4E, 0x45, 0x53, 0x49, 0x53]"
  by (simp add: pushdata_def)

lemma pushdata_MINT: "pushdata [0x4D, 0x49, 0x4E, 0x54] = Inr [0x04, 0x4D, 0x49, 0x4E, 0x54]"
  by (simp add: pushdata_def)

lemma pushdata_SEND: "pushdata [0x53, 0x45, 0x4E, 0x44] = Inr [0x04, 0x53, 0x45, 0x4E, 0x44]"
  by (simp add: pushdata_def)

lemma pushdata_single: "pushdata [x] = Inr [0x01, x]"
  by (simp add: pushdata_def)

lemma pushdata_empty: "pushdata [] = Inr [0x4C, 0x00]"
  by (simp add: pushdata_def)

lemma pushdata_mintBaton:
  "pushdata (case m of None \<Rightarrow> [] | Some v \<Rightarrow> [byteOfNumber v]) =
   Inr (case m of None \<Rightarrow> [0x4C, 0x00] | Some v \<Rightarrow> [0x01, byteOfNumber v])"
  by (simp add: pushdata_single pushdata_empty split: option.split)

lemma pushdata_Inr: "length b < 0xFFFFFFFF \<Longrightarrow> \<exists>p. pushdata b = Inr p"
  by (simp add: pushdata_def)

lemma pushdata_32: "length b = 32 \<Longrightarrow> pushdata b = Inr (0x20 # b)"
  by (auto simp: pushdata_def)

lemma pushdata_8: "length b = 8 \<Longrightarrow> pushdata b = Inr (0x08 # b)"
  by (auto simp: pushdata_def)

lemma pushInt64_Inr:
  "(pushInt64 q = Inr p) = (\<exists>bs. BNToInt64BE q = Inr bs \<and> p = 0x08 # bs)"
  by (auto simp: pushInt64_def pushdata_8 dest: BNToInt64BE_length split: sum.splits)

lemma pushInt64_bnOfInt:
  assumes "0 \<le> n" "n \<le> 2 ^ 64 - 1"
  shows "\<exists>p. pushInt64 (bnOfInt n) = Inr p"
proof -
  from assms have "nat n < 2 ^ 64" and "of_nat (nat n) = (of_int n :: rat)"
    by (simp_all add: nat_less_iff)
  with BNToInt64BE_nat [of "nat n"] obtain bs where "BNToInt64BE (bnOfInt n) = Inr bs"
    by (auto simp: bnOfInt_def)
  then show ?thesis by (simp add: pushInt64_Inr)
qed

lemma checkDocumentHash_length:
  assumes "checkDocumentHash h = Inr d"
  shows "length d = 0 \<or> length d = 32"
proof (cases h)
  case (Str s)
  show ?thesis
  proof (cases "length s = 0")
    case True
    with assms Str show ?thesis by simp
  next
    case False
    with assms Str have m: "matchHex64 s" and d: "d = hexDecode s"
      by (auto split: if_splits)
    from m have "length (hexDecode s) = 32"
      by (simp add: matchHex64_def hexDecode_length)
    with d show ?thesis by simp
  qed
next
  case (Buf b)
  with assms show ?thesis by (auto split: if_splits)
qed

lemma checkTokenId_length:
  assumes "checkTokenId t = Inr d"
  shows "length d = 32"
proof (cases t)
  case (Str s)
  with assms have m: "matchHex64 s" and d: "d = hexDecode s"
    by (auto split: if_splits)
  from m have "length (hexDecode s) = 32"
    by (simp add: matchHex64_def hexDecode_length)
  with d show ?thesis by simp
next
  case (Buf b)
  with assms show ?thesis by (auto split: if_splits)
qed

text \<open>
  C1. GENESIS with versionType 1, ticker "TOK", name "Token", empty documentUrl and
  documentHash, decimals 2, mintBatonVout 2 and quantity 1000 gives the byte 6A, then the
  pushes of "SLP" with its zero byte, of the byte 01, of "GENESIS", of the ticker, the name, the url, the
  hash, decimals, mintBatonVout and the quantity in that order, ending with the 8 bytes
  00 00 00 00 00 00 03 E8. Each segment is what \<open>pushdata\<close> returns on that field.
\<close>

theorem genesis_example:
  "createOpReturnGenesis 0x01 (Str (js ''TOK'')) (Str (js ''Token'')) (Str (js '''')) (Str (js ''''))
      (num 2) (Some (num 2)) (bnOfInt 1000) =
     Inr ([0x6A] @ [0x04, 0x53, 0x4C, 0x50, 0x00] @ [0x01, 0x01] @
          [0x07, 0x47, 0x45, 0x4E, 0x45, 0x53, 0x49, 0x53] @
          [0x03, 0x54, 0x4F, 0x4B] @ [0x05, 0x54, 0x6F, 0x6B, 0x65, 0x6E] @
          [0x4C, 0x00] @ [0x4C, 0x00] @ [0x01, 0x02] @ [0x01, 0x02] @
          [0x08, 0x00, 0x00, 0x00, 0x00, 0x00, 0x00, 0x03, 0xE8]) \<and>
   pushdata (bufferFrom (Str (js ''SLP'' @ [0]))) = Inr [0x04, 0x53, 0x4C, 0x50, 0x00] \<and>
   pushdata [byteOf 0x01] = Inr [0x01, 0x01] \<and>
   pushdata (bufferFrom (Str (js ''GENESIS''))) =
     Inr [0x07, 0x47, 0x45, 0x4E, 0x45, 0x53, 0x49, 0x53] \<and>
   pushdata (bufferFrom (Str (js ''TOK''))) = Inr [0x03, 0x54, 0x4F, 0x4B] \<and>
   pushdata (bufferFrom (Str (js ''Token''))) = Inr [0x05, 0x54, 0x6F, 0x6B, 0x65, 0x6E] \<and>
   pushdata (bufferFrom (Str (js ''''))) = Inr [0x4C, 0x00] \<and>
   checkDocumentHash (Str (js '''')) = Inr [] \<and>
   pushdata [byteOfNumber (num 2)] = Inr [0x01, 0x02] \<and>
   BNToInt64BE (bnOfInt 1000) = Inr [0x00, 0x00, 0x00, 0x00, 0x00, 0x00, 0x03, 0xE8] \<and>
   pushInt64 (bnOfInt 1000) = Inr [0x08, 0x00, 0x00, 0x00, 0x00, 0x00, 0x00, 0x03, 0xE8]"
  by code_simp

lemma validDocumentHash_check: "validDocumentHash h = (\<exists>d. checkDocumentHash h = Inr d)"
  by (cases h) (auto simp: validDocumentHash_def matchHex64_def)

lemma validTokenId_check: "validTokenId t = (\<exists>d. checkTokenId t = Inr d)"
  by (cases t) (auto simp: validTokenId_def matchHex64_def)

lemma checkDocumentHash_error:
  "checkDocumentHash h = Inl e \<Longrightarrow> e = DocumentHashLength \<or> e = DocumentHashNotHex"
  by (cases h) (auto split: if_splits)


lemma range_guard:
  "(numLess x lo \<or> numGreater x hi) = (x \<noteq> NumberNaN \<and> \<not> inRange lo hi x)"
  by (cases x) auto

lemma inRange_num: "inRange lo hi (num n) = (lo \<le> n \<and> n \<le> hi)"
  by (simp add: num_def)

lemma numStrictEq_num: "numStrictEq x k = (x = num k)"
  by (cases x) (simp_all add: num_def)



lemma genesis_Inr:
  "(createOpReturnGenesis vt t n u h d m q = Inr buf) =
   (validVersionType vt \<and> (inRange 0 9 d \<or> d = NumberNaN) \<and>
    (\<forall>v. m = Some v \<longrightarrow> inRange 2 255 v \<or> v = NumberNaN) \<and>
    (vt = 0x41 \<longrightarrow> isEqualTo q 1 \<and> d = num 0 \<and> m = None) \<and>
    (\<exists>pt pn pu dh ph pq.
       pushdata (bufferFrom t) = Inr pt \<and> pushdata (bufferFrom n) = Inr pn \<and>
       pushdata (bufferFrom u) = Inr pu \<and> checkDocumentHash h = Inr dh \<and>
       pushdata dh = Inr ph \<and> pushInt64 q = Inr pq \<and>
       buf = [0x6A, 0x04, 0x53, 0x4C, 0x50, 0x00, 0x01, byteOf vt,
              0x07, 0x47, 0x45, 0x4E, 0x45, 0x53, 0x49, 0x53] @ pt @ pn @ pu @ ph @
             [0x01, byteOfNumber d] @
             (case m of None \<Rightarrow> [0x4C, 0x00] | Some v \<Rightarrow> [0x01, byteOfNumber v]) @ pq))"
  unfolding createOpReturnGenesis_def validVersionType_def range_guard numStrictEq_num
  by (cases "checkDocumentHash h")
     (auto simp: concatResults_Cons_Inr concatResults_Nil_Inr lit_SLP lit_GENESIS
        pushdata_SLP pushdata_GENESIS pushdata_single pushdata_empty pushdata_mintBaton
        simp del: concatResults.simps bufferFrom.simps split: option.splits)

lemma mint_Inr:
  "(createOpReturnMint vt t m q = Inr buf) =
   (validVersionType vt \<and> (\<forall>v. m = Some v \<longrightarrow> inRange 2 255 v \<or> v = NumberNaN) \<and>
    (\<exists>tid pq.
       checkTokenId t = Inr tid \<and> pushInt64 q = Inr pq \<and>
       buf = [0x6A, 0x04, 0x53, 0x4C, 0x50, 0x00, 0x01, byteOf vt,
              0x04, 0x4D, 0x49, 0x4E, 0x54] @ [0x20] @ tid @
             (case m of None \<Rightarrow> [0x4C, 0x00] | Some v \<Rightarrow> [0x01, byteOfNumber v]) @ pq))"
  unfolding createOpReturnMint_def validVersionType_def range_guard
  by (cases "checkTokenId t")
     (auto simp: concatResults_Cons_Inr concatResults_Nil_Inr lit_SLP lit_MINT
        pushdata_SLP pushdata_MINT pushdata_single pushdata_empty pushdata_mintBaton
        pushdata_32 checkTokenId_length
        simp del: concatResults.simps bufferFrom.simps split: option.splits)

lemma send_Inr:
  "(createOpReturnSend vt t as = Inr buf) =
   (validVersionType vt \<and> 1 \<le> length as \<and> length as \<le> 19 \<and>
    (\<exists>tid ps.
       checkTokenId t = Inr tid \<and> concatResults (map pushInt64 as) = Inr ps \<and>
       buf = [0x6A, 0x04, 0x53, 0x4C, 0x50, 0x00, 0x01, byteOf vt,
              0x04, 0x53, 0x45, 0x4E, 0x44] @ [0x20] @ tid @ ps))"
  unfolding createOpReturnSend_def validVersionType_def
  by (cases "checkTokenId t")
     (auto simp: concatResults_Cons_Inr concatResults_Nil_Inr lit_SLP lit_SEND
        pushdata_SLP pushdata_SEND pushdata_single pushdata_32 checkTokenId_length Suc_le_eq
        simp del: concatResults.simps bufferFrom.simps)

lemma genesis_hash_error:
  assumes "validVersionType vt" "\<not> validDocumentHash h"
  shows "createOpReturnGenesis vt t n u h d m q = Inl DocumentHashLength \<or>
    createOpReturnGenesis vt t n u h d m q = Inl DocumentHashNotHex"
proof -
  from assms(2) obtain e where e: "checkDocumentHash h = Inl e"
    by (cases "checkDocumentHash h") (auto simp: validDocumentHash_check)
  with assms(1) have "createOpReturnGenesis vt t n u h d m q = Inl e"
    by (auto simp: createOpReturnGenesis_def validVersionType_def)
  with checkDocumentHash_error [OF e] show ?thesis by auto
qed

lemma genesis_decimals_error:
  assumes "validVersionType vt" "validDocumentHash h" "d \<noteq> NumberNaN" "\<not> inRange 0 9 d"
  shows "createOpReturnGenesis vt t n u h d m q = Inl DecimalsOutOfRange"
proof -
  from assms(2) obtain dh where "checkDocumentHash h = Inr dh"
    by (auto simp: validDocumentHash_check)
  with assms show ?thesis
    by (auto simp: createOpReturnGenesis_def validVersionType_def range_guard)
qed

lemma genesis_baton_range:
  assumes "validVersionType vt" "validDocumentHash h" "inRange 0 9 d \<or> d = NumberNaN"
    "w \<noteq> NumberNaN" "\<not> inRange 2 255 w"
  shows "createOpReturnGenesis vt t n u h d (Some w) q = Inl MintBatonVoutOutOfRange"
proof -
  from assms(2) obtain dh where "checkDocumentHash h = Inr dh"
    by (auto simp: validDocumentHash_check)
  with assms show ?thesis
    by (auto simp: createOpReturnGenesis_def validVersionType_def range_guard)
qed

lemma child_rule_error:
  assumes "validDocumentHash h" "inRange 0 9 d \<or> d = NumberNaN"
    "\<forall>v. m = Some v \<longrightarrow> inRange 2 255 v \<or> v = NumberNaN"
    and "\<not> isEqualTo q 1 \<or> d \<noteq> num 0 \<or> m \<noteq> None"
  shows "createOpReturnGenesis 0x41 t n u h d m q =
    Inl (if \<not> isEqualTo q 1 then ChildQuantityNotOne
         else if d \<noteq> num 0 then ChildDecimalsNotZero else ChildMintBatonNotNull)"
proof -
  from assms(1) obtain dh where "checkDocumentHash h = Inr dh"
    by (auto simp: validDocumentHash_check)
  with assms(2-) show ?thesis
    by (cases m) (auto simp: createOpReturnGenesis_def range_guard numStrictEq_num)
qed

lemma child_rule_fails:
  assumes "\<not> isEqualTo q 1 \<or> d \<noteq> num 0 \<or> m \<noteq> None"
  shows "isl (createOpReturnGenesis 0x41 t n u h d m q)"
proof (cases "createOpReturnGenesis 0x41 t n u h d m q")
  case (Inl e)
  then show ?thesis by simp
next
  case (Inr buf)
  with assms show ?thesis by (simp add: genesis_Inr)
qed

lemma isEqualTo_1: "isEqualTo q 1 \<Longrightarrow> q = bnOfInt 1"
  by (cases q) (simp_all add: bnOfInt_def)

lemma child_rule_ok:
  assumes "validDocumentHash h" "length (bufferFrom t) < 0xFFFFFFFF"
    "length (bufferFrom n) < 0xFFFFFFFF" "length (bufferFrom u) < 0xFFFFFFFF"
    "isEqualTo q 1"
  shows "\<exists>buf. createOpReturnGenesis 0x41 t n u h (num 0) None q = Inr buf"
proof -
  from assms(1) obtain dh where dh: "checkDocumentHash h = Inr dh"
    by (auto simp: validDocumentHash_check)
  then have "length dh < 0xFFFFFFFF" using checkDocumentHash_length [OF dh] by auto
  then obtain ph where ph: "pushdata dh = Inr ph" by (rule pushdata_Inr [THEN exE])
  obtain pt where pt: "pushdata (bufferFrom t) = Inr pt"
    by (rule pushdata_Inr [OF assms(2), THEN exE])
  obtain pn where pn: "pushdata (bufferFrom n) = Inr pn"
    by (rule pushdata_Inr [OF assms(3), THEN exE])
  obtain pu where pu: "pushdata (bufferFrom u) = Inr pu"
    by (rule pushdata_Inr [OF assms(4), THEN exE])
  note p = pt pn pu
  have "q = bnOfInt 1" using assms(5) by (rule isEqualTo_1)
  then obtain pq where pq: "pushInt64 q = Inr pq" using pushInt64_bnOfInt [of 1] by auto
  show ?thesis
    using dh ph p pq assms(5) by (simp add: genesis_Inr validVersionType_def inRange_num)
qed

text \<open>
  C6, as the code has it. With versionType 0x41 the call fails whenever the quantity is
  not 1, decimals is not 0 or mintBatonVout is present. The checks run in order and the
  first that fails gives the error: an invalid documentHash one of the two documentHash
  errors; then decimals, unless NaN, outside 0 to 9 \<open>DecimalsOutOfRange\<close>; then a
  mintBatonVout, unless NaN, outside 2 to 255 \<open>MintBatonVoutOutOfRange\<close>; and only then the
  child rule its own error, for the quantity first, then decimals, then mintBatonVout.
  With quantity 1, decimals 0, no mintBatonVout, a valid documentHash and ticker, name and
  documentUrl short enough to push, the call succeeds.
\<close>

theorem genesis_child:
  "(\<not> validDocumentHash documentHash \<longrightarrow>
      createOpReturnGenesis 0x41 ticker name documentUrl documentHash decimals
        mintBatonVout quantity = Inl DocumentHashLength \<or>
      createOpReturnGenesis 0x41 ticker name documentUrl documentHash decimals
        mintBatonVout quantity = Inl DocumentHashNotHex) \<and>
   (validDocumentHash documentHash \<and> decimals \<noteq> NumberNaN \<and> \<not> inRange 0 9 decimals \<longrightarrow>
      createOpReturnGenesis 0x41 ticker name documentUrl documentHash decimals
        mintBatonVout quantity = Inl DecimalsOutOfRange) \<and>
   (validDocumentHash documentHash \<and> (inRange 0 9 decimals \<or> decimals = NumberNaN) \<and>
    w \<noteq> NumberNaN \<and> \<not> inRange 2 255 w \<longrightarrow>
      createOpReturnGenesis 0x41 ticker name documentUrl documentHash decimals
        (Some w) quantity = Inl MintBatonVoutOutOfRange) \<and>
   (validDocumentHash documentHash \<and> (inRange 0 9 decimals \<or> decimals = NumberNaN) \<and>
    (\<forall>v. mintBatonVout = Some v \<longrightarrow> inRange 2 255 v \<or> v = NumberNaN) \<and>
    (\<not> isEqualTo quantity 1 \<or> decimals \<noteq> num 0 \<or> mintBatonVout \<noteq> None) \<longrightarrow>
      (\<exists>e. createOpReturnGenesis 0x41 ticker name documentUrl documentHash decimals
              mintBatonVout quantity = Inl e \<and> isInvalidChildGenesisParams e) \<and>
      createOpReturnGenesis 0x41 ticker name documentUrl documentHash decimals
        mintBatonVout quantity =
        Inl (if \<not> isEqualTo quantity 1 then ChildQuantityNotOne
             else if decimals \<noteq> num 0 then ChildDecimalsNotZero
             else ChildMintBatonNotNull)) \<and>
   (\<not> isEqualTo quantity 1 \<or> decimals \<noteq> num 0 \<or> mintBatonVout \<noteq> None \<longrightarrow>
      isl (createOpReturnGenesis 0x41 ticker name documentUrl documentHash decimals
             mintBatonVout quantity)) \<and>
   (validDocumentHash documentHash \<and> length (bufferFrom ticker) < 0xFFFFFFFF \<and>
    length (bufferFrom name) < 0xFFFFFFFF \<and> length (bufferFrom documentUrl) < 0xFFFFFFFF \<and>
    isEqualTo quantity' 1 \<longrightarrow>
      (\<exists>buf. createOpReturnGenesis 0x41 ticker name documentUrl documentHash (num 0) None
                quantity' = Inr buf))"
proof -
  have v: "validVersionType 0x41" by (simp add: validVersionType_def)
  have c1: "\<not> validDocumentHash documentHash \<longrightarrow>
      createOpReturnGenesis 0x41 ticker name documentUrl documentHash decimals
        mintBatonVout quantity = Inl DocumentHashLength \<or>
      createOpReturnGenesis 0x41 ticker name documentUrl documentHash decimals
        mintBatonVout quantity = Inl DocumentHashNotHex"
    using genesis_hash_error [OF v] by blast
  have c2: "validDocumentHash documentHash \<and> decimals \<noteq> NumberNaN \<and>
      \<not> inRange 0 9 decimals \<longrightarrow>
      createOpReturnGenesis 0x41 ticker name documentUrl documentHash decimals
        mintBatonVout quantity = Inl DecimalsOutOfRange"
    using genesis_decimals_error [OF v] by blast
  have c3: "validDocumentHash documentHash \<and> (inRange 0 9 decimals \<or> decimals = NumberNaN) \<and>
      w \<noteq> NumberNaN \<and> \<not> inRange 2 255 w \<longrightarrow>
      createOpReturnGenesis 0x41 ticker name documentUrl documentHash decimals
        (Some w) quantity = Inl MintBatonVoutOutOfRange"
    using genesis_baton_range [OF v] by blast
  have c4: "validDocumentHash documentHash \<and> (inRange 0 9 decimals \<or> decimals = NumberNaN) \<and>
      (\<forall>v. mintBatonVout = Some v \<longrightarrow> inRange 2 255 v \<or> v = NumberNaN) \<and>
      (\<not> isEqualTo quantity 1 \<or> decimals \<noteq> num 0 \<or> mintBatonVout \<noteq> None) \<longrightarrow>
      (\<exists>e. createOpReturnGenesis 0x41 ticker name documentUrl documentHash decimals
              mintBatonVout quantity = Inl e \<and> isInvalidChildGenesisParams e) \<and>
      createOpReturnGenesis 0x41 ticker name documentUrl documentHash decimals
        mintBatonVout quantity =
        Inl (if \<not> isEqualTo quantity 1 then ChildQuantityNotOne
             else if decimals \<noteq> num 0 then ChildDecimalsNotZero
             else ChildMintBatonNotNull)"
  proof
    assume h: "validDocumentHash documentHash \<and>
      (inRange 0 9 decimals \<or> decimals = NumberNaN) \<and>
      (\<forall>v. mintBatonVout = Some v \<longrightarrow> inRange 2 255 v \<or> v = NumberNaN) \<and>
      (\<not> isEqualTo quantity 1 \<or> decimals \<noteq> num 0 \<or> mintBatonVout \<noteq> None)"
    then have e: "createOpReturnGenesis 0x41 ticker name documentUrl documentHash decimals
        mintBatonVout quantity =
        Inl (if \<not> isEqualTo quantity 1 then ChildQuantityNotOne
             else if decimals \<noteq> num 0 then ChildDecimalsNotZero
             else ChildMintBatonNotNull)"
      by (intro child_rule_error) simp_all
    then have "\<exists>e. createOpReturnGenesis 0x41 ticker name documentUrl documentHash decimals
              mintBatonVout quantity = Inl e \<and> isInvalidChildGenesisParams e"
      by simp
    with e show "(\<exists>e. createOpReturnGenesis 0x41 ticker name documentUrl documentHash decimals
              mintBatonVout quantity = Inl e \<and> isInvalidChildGenesisParams e) \<and>
      createOpReturnGenesis 0x41 ticker name documentUrl documentHash decimals
        mintBatonVout quantity =
        Inl (if \<not> isEqualTo quantity 1 then ChildQuantityNotOne
             else if decimals \<noteq> num 0 then ChildDecimalsNotZero
             else ChildMintBatonNotNull)"
      by (rule conjI [rotated])
  qed
  have c5: "\<not> isEqualTo quantity 1 \<or> decimals \<noteq> num 0 \<or> mintBatonVout \<noteq> None \<longrightarrow>
      isl (createOpReturnGenesis 0x41 ticker name documentUrl documentHash decimals
             mintBatonVout quantity)"
    using child_rule_fails by blast
  have c6: "validDocumentHash documentHash \<and> length (bufferFrom ticker) < 0xFFFFFFFF \<and>
      length (bufferFrom name) < 0xFFFFFFFF \<and> length (bufferFrom documentUrl) < 0xFFFFFFFF \<and>
      isEqualTo quantity' 1 \<longrightarrow>
      (\<exists>buf. createOpReturnGenesis 0x41 ticker name documentUrl documentHash (num 0) None
                quantity' = Inr buf)"
  proof
    assume "validDocumentHash documentHash \<and> length (bufferFrom ticker) < 0xFFFFFFFF \<and>
      length (bufferFrom name) < 0xFFFFFFFF \<and> length (bufferFrom documentUrl) < 0xFFFFFFFF \<and>
      isEqualTo quantity' 1"
    then show "\<exists>buf. createOpReturnGenesis 0x41 ticker name documentUrl documentHash (num 0)
        None quantity' = Inr buf"
      by (intro child_rule_ok) simp_all
  qed
  from c1 c2 c3 c4 c5 c6 show ?thesis by (intro conjI)
qed

text \<open>
  The error is not always one of the child rule: decimals 10, or mintBatonVout 1, is
  refused by the range check that comes first.
\<close>

theorem genesis_child_counterexample:
  "createOpReturnGenesis 0x41 (Str (js ''NFT'')) (Str (js ''Child'')) (Str (js '''')) (Str (js ''''))
      (num 10) None (bnOfInt 1) = Inl DecimalsOutOfRange \<and>
   \<not> isInvalidChildGenesisParams DecimalsOutOfRange \<and>
   createOpReturnGenesis 0x41 (Str (js ''NFT'')) (Str (js ''Child'')) (Str (js '''')) (Str (js ''''))
      (num 0) (Some (num 1)) (bnOfInt 1) = Inl MintBatonVoutOutOfRange \<and>
   \<not> isInvalidChildGenesisParams MintBatonVoutOutOfRange"
  by code_simp

theorem genesis_child_witness:
  "(createOpReturnGenesis 0x41 (Str (js ''NFT'')) (Str (js ''Child'')) (Str (js ''''))
      (Buf [0x00]) (num 0) None (bnOfInt 1) = Inl DocumentHashLength \<or>
    createOpReturnGenesis 0x41 (Str (js ''NFT'')) (Str (js ''Child'')) (Str (js ''''))
      (Buf [0x00]) (num 0) None (bnOfInt 1) = Inl DocumentHashNotHex) \<and>
   createOpReturnGenesis 0x41 (Str (js ''NFT'')) (Str (js ''Child'')) (Str (js '''')) (Str (js ''''))
      (num 10) None (bnOfInt 1) = Inl DecimalsOutOfRange \<and>
   createOpReturnGenesis 0x41 (Str (js ''NFT'')) (Str (js ''Child'')) (Str (js '''')) (Str (js ''''))
      (num 0) (Some (num 1)) (bnOfInt 1) = Inl MintBatonVoutOutOfRange \<and>
   createOpReturnGenesis 0x41 (Str (js ''NFT'')) (Str (js ''Child'')) (Str (js '''')) (Str (js ''''))
      (num 0) None (bnOfInt 2) = Inl ChildQuantityNotOne \<and>
   createOpReturnGenesis 0x41 (Str (js ''NFT'')) (Str (js ''Child'')) (Str (js '''')) (Str (js ''''))
      (num 1) None (bnOfInt 1) = Inl ChildDecimalsNotZero \<and>
   createOpReturnGenesis 0x41 (Str (js ''NFT'')) (Str (js ''Child'')) (Str (js '''')) (Str (js ''''))
      (num 0) (Some (num 2)) (bnOfInt 1) = Inl ChildMintBatonNotNull \<and>
   isl (createOpReturnGenesis 0x41 (Str (js ''NFT'')) (Str (js ''Child'')) (Str (js ''''))
      (Str (js '''')) (num 0) (Some (num 2)) (bnOfInt 1)) \<and>
   (\<exists>buf. createOpReturnGenesis 0x41 (Str (js ''NFT'')) (Str (js ''Child'')) (Str (js ''''))
      (Str (js '''')) (num 0) None (bnOfInt 1) = Inr buf)"
proof -
  note f = genesis_child [where ticker = "Str (js ''NFT'')" and name = "Str (js ''Child'')"
      and documentUrl = "Str (js '''')"]
  note g = f [where documentHash = "Str (js '''')"]
  have v: "validDocumentHash (Str (js ''''))" "\<not> validDocumentHash (Buf [0x00])"
    by (simp_all add: validDocumentHash_def js_def)
  have l: "length (bufferFrom (Str (js ''NFT''))) < 0xFFFFFFFF"
    "length (bufferFrom (Str (js ''Child''))) < 0xFFFFFFFF"
    "length (bufferFrom (Str (js ''''))) < 0xFFFFFFFF"
    by (simp_all add: js_def)
  have q: "isEqualTo (bnOfInt 1) 1" "\<not> isEqualTo (bnOfInt 2) 1"
    by (simp_all add: bnOfInt_def)
  have n: "num 10 \<noteq> NumberNaN" "num 1 \<noteq> NumberNaN" "num 1 \<noteq> num 0"
    by (simp_all add: num_def)
  have c1: "createOpReturnGenesis 0x41 (Str (js ''NFT'')) (Str (js ''Child'')) (Str (js ''''))
      (Buf [0x00]) (num 0) None (bnOfInt 1) = Inl DocumentHashLength \<or>
    createOpReturnGenesis 0x41 (Str (js ''NFT'')) (Str (js ''Child'')) (Str (js ''''))
      (Buf [0x00]) (num 0) None (bnOfInt 1) = Inl DocumentHashNotHex"
    using f [where documentHash = "Buf [0x00]" and decimals = "num 0" and mintBatonVout = None
        and quantity = "bnOfInt 1", THEN conjunct1] v
    by simp
  have c2: "createOpReturnGenesis 0x41 (Str (js ''NFT'')) (Str (js ''Child'')) (Str (js ''''))
      (Str (js '''')) (num 10) None (bnOfInt 1) = Inl DecimalsOutOfRange"
    using g [where decimals = "num 10" and mintBatonVout = None and quantity = "bnOfInt 1",
        THEN conjunct2, THEN conjunct1] v n
    by (simp add: inRange_num)
  have c3: "createOpReturnGenesis 0x41 (Str (js ''NFT'')) (Str (js ''Child'')) (Str (js ''''))
      (Str (js '''')) (num 0) (Some (num 1)) (bnOfInt 1) = Inl MintBatonVoutOutOfRange"
    using g [where decimals = "num 0" and w = "num 1" and quantity = "bnOfInt 1",
        THEN conjunct2, THEN conjunct2, THEN conjunct1] v n
    by (simp add: inRange_num)
  have c4a: "createOpReturnGenesis 0x41 (Str (js ''NFT'')) (Str (js ''Child'')) (Str (js ''''))
      (Str (js '''')) (num 0) None (bnOfInt 2) = Inl ChildQuantityNotOne"
    using g [where decimals = "num 0" and mintBatonVout = None and quantity = "bnOfInt 2",
        THEN conjunct2, THEN conjunct2, THEN conjunct2, THEN conjunct1] v q
    by (simp add: inRange_num)
  have c4b: "createOpReturnGenesis 0x41 (Str (js ''NFT'')) (Str (js ''Child'')) (Str (js ''''))
      (Str (js '''')) (num 1) None (bnOfInt 1) = Inl ChildDecimalsNotZero"
    using g [where decimals = "num 1" and mintBatonVout = None and quantity = "bnOfInt 1",
        THEN conjunct2, THEN conjunct2, THEN conjunct2, THEN conjunct1] v q n
    by (simp add: inRange_num)
  have c4c: "createOpReturnGenesis 0x41 (Str (js ''NFT'')) (Str (js ''Child'')) (Str (js ''''))
      (Str (js '''')) (num 0) (Some (num 2)) (bnOfInt 1) = Inl ChildMintBatonNotNull"
    using g [where decimals = "num 0" and mintBatonVout = "Some (num 2)"
        and quantity = "bnOfInt 1",
        THEN conjunct2, THEN conjunct2, THEN conjunct2, THEN conjunct1] v q
    by (simp add: inRange_num)
  have c5: "isl (createOpReturnGenesis 0x41 (Str (js ''NFT'')) (Str (js ''Child''))
      (Str (js '''')) (Str (js '''')) (num 0) (Some (num 2)) (bnOfInt 1))"
    using g [where decimals = "num 0" and mintBatonVout = "Some (num 2)"
        and quantity = "bnOfInt 1",
        THEN conjunct2, THEN conjunct2, THEN conjunct2, THEN conjunct2, THEN conjunct1]
    by simp
  have c6: "\<exists>buf. createOpReturnGenesis 0x41 (Str (js ''NFT'')) (Str (js ''Child''))
      (Str (js '''')) (Str (js '''')) (num 0) None (bnOfInt 1) = Inr buf"
    using g [where quantity' = "bnOfInt 1",
        THEN conjunct2, THEN conjunct2, THEN conjunct2, THEN conjunct2, THEN conjunct2] v l q
    by simp
  from c1 c2 c3 c4a c4b c4c c5 c6 show ?thesis by (intro conjI)
qed

lemma send_fails_count:
  assumes "slpAmounts = [] \<or> 19 < length slpAmounts"
  shows "isl (createOpReturnSend vt tok slpAmounts)"
proof (cases "createOpReturnSend vt tok slpAmounts")
  case (Inl e)
  then show ?thesis by simp
next
  case (Inr buf)
  with assms show ?thesis by (auto simp: send_Inr)
qed

lemma send_few:
  assumes "validVersionType vt" "validTokenId tok"
  shows "createOpReturnSend vt tok [] = Inl TooFewAmounts"
proof -
  from assms(2) obtain tid where "checkTokenId tok = Inr tid"
    by (auto simp: validTokenId_check)
  with assms(1) show ?thesis
    by (auto simp: createOpReturnSend_def validVersionType_def)
qed

lemma send_many:
  assumes "validVersionType vt" "validTokenId tok" "19 < length slpAmounts"
  shows "createOpReturnSend vt tok slpAmounts = Inl TooManyAmounts"
proof -
  from assms(2) obtain tid where "checkTokenId tok = Inr tid"
    by (auto simp: validTokenId_check)
  with assms(1,3) show ?thesis
    by (auto simp: createOpReturnSend_def validVersionType_def)
qed

lemma send_ok:
  assumes "validVersionType vt" "validTokenId tok" "1 \<le> length ns" "length ns \<le> 19"
    and "\<forall>n\<in>set ns. 0 \<le> n \<and> n \<le> 2 ^ 64 - 1"
  shows "\<exists>buf. createOpReturnSend vt tok (map bnOfInt ns) = Inr buf"
proof -
  from assms(2) obtain tid where tid: "checkTokenId tok = Inr tid"
    by (auto simp: validTokenId_check)
  have "\<exists>ps. concatResults (map pushInt64 (map bnOfInt ns)) = Inr ps"
  proof (rule concatResults_all_Inr)
    fix r
    assume "r \<in> set (map pushInt64 (map bnOfInt ns))"
    then obtain n where "n \<in> set ns" and r: "r = pushInt64 (bnOfInt n)" by auto
    with assms(5) have "0 \<le> n" "n \<le> 2 ^ 64 - 1" by auto
    then show "\<exists>b. r = Inr b" unfolding r by (rule pushInt64_bnOfInt)
  qed
  then obtain ps where "concatResults (map pushInt64 (map bnOfInt ns)) = Inr ps" ..
  with tid assms(1,3,4) show ?thesis by (simp add: send_Inr)
qed

text \<open>
  C7. SEND fails on an empty list of amounts and on more than 19 amounts, with
  \<open>TooFewAmounts\<close> and \<open>TooManyAmounts\<close> when the version type and the token id are
  valid; with 1 to 19 amounts, each an integer from 0 to \<open>2^64 - 1\<close>, it succeeds.
\<close>

theorem send_amount_count:
  "(slpAmounts = [] \<or> 19 < length slpAmounts \<longrightarrow>
      isl (createOpReturnSend versionType tokenIdHex slpAmounts)) \<and>
   (validVersionType versionType \<and> validTokenId tokenIdHex \<longrightarrow>
      createOpReturnSend versionType tokenIdHex [] = Inl TooFewAmounts) \<and>
   (validVersionType versionType \<and> validTokenId tokenIdHex \<and> 19 < length slpAmounts \<longrightarrow>
      createOpReturnSend versionType tokenIdHex slpAmounts = Inl TooManyAmounts) \<and>
   (validVersionType versionType \<and> validTokenId tokenIdHex \<and>
    1 \<le> length ns \<and> length ns \<le> 19 \<and> (\<forall>n\<in>set ns. 0 \<le> n \<and> n \<le> 2 ^ 64 - 1) \<longrightarrow>
      (\<exists>buf. createOpReturnSend versionType tokenIdHex (map bnOfInt ns) = Inr buf))"
proof (intro conjI impI)
  assume "slpAmounts = [] \<or> 19 < length slpAmounts"
  then show "isl (createOpReturnSend versionType tokenIdHex slpAmounts)"
    by (rule send_fails_count)
next
  assume "validVersionType versionType \<and> validTokenId tokenIdHex"
  then show "createOpReturnSend versionType tokenIdHex [] = Inl TooFewAmounts"
    by (simp add: send_few)
next
  assume "validVersionType versionType \<and> validTokenId tokenIdHex \<and> 19 < length slpAmounts"
  then show "createOpReturnSend versionType tokenIdHex slpAmounts = Inl TooManyAmounts"
    by (simp add: send_many)
next
  assume "validVersionType versionType \<and> validTokenId tokenIdHex \<and>
    1 \<le> length ns \<and> length ns \<le> 19 \<and> (\<forall>n\<in>set ns. 0 \<le> n \<and> n \<le> 2 ^ 64 - 1)"
  then show "\<exists>buf. createOpReturnSend versionType tokenIdHex (map bnOfInt ns) = Inr buf"
    by (intro send_ok) simp_all
qed

theorem send_amount_count_witness:
  "createOpReturnSend 0x01 (Buf (replicate 32 0xAB)) [] = Inl TooFewAmounts \<and>
   createOpReturnSend 0x01 (Buf (replicate 32 0xAB)) (map bnOfInt (replicate 20 7)) =
     Inl TooManyAmounts \<and>
   (\<exists>buf. createOpReturnSend 0x01 (Buf (replicate 32 0xAB)) (map bnOfInt (replicate 19 7)) =
     Inr buf) \<and>
   (\<exists>buf. createOpReturnSend 0x01 (Buf (replicate 32 0xAB)) (map bnOfInt [0, 2 ^ 64 - 1]) =
     Inr buf)"
proof -
  have v: "validVersionType 0x01" "validTokenId (Buf (replicate 32 0xAB))"
    by (simp_all add: validVersionType_def validTokenId_def)
  have a: "createOpReturnSend 0x01 (Buf (replicate 32 0xAB)) [] = Inl TooFewAmounts"
    using send_amount_count [of "[]" 1 "Buf (replicate 32 0xAB)" "[]"] v by simp
  have b: "createOpReturnSend 0x01 (Buf (replicate 32 0xAB)) (map bnOfInt (replicate 20 7)) =
      Inl TooManyAmounts"
    using send_amount_count [of "map bnOfInt (replicate 20 7)" 1 "Buf (replicate 32 0xAB)" "[]"] v
    by simp
  have c: "\<exists>buf. createOpReturnSend 0x01 (Buf (replicate 32 0xAB))
      (map bnOfInt (replicate 19 7)) = Inr buf"
    using send_amount_count [of "[]" 1 "Buf (replicate 32 0xAB)" "replicate 19 7"] v by simp
  have d: "\<exists>buf. createOpReturnSend 0x01 (Buf (replicate 32 0xAB))
      (map bnOfInt [0, 2 ^ 64 - 1]) = Inr buf"
    using send_amount_count [of "[]" 1 "Buf (replicate 32 0xAB)" "[0, 2 ^ 64 - 1]"] v by simp
  from a b c d show ?thesis by blast
qed

lemma uint_byteOf_version: "validVersionType vt \<Longrightarrow> uint (byteOf vt) = vt"
  by (auto simp: validVersionType_def byteOf_def)








text \<open>
  C9. Every buffer that GENESIS, MINT or SEND returns starts with the 7 bytes
  6A 04 53 4C 50 00 01, and its 8th byte is the version type.
\<close>

theorem common_prefix:
  "createOpReturnGenesis versionType ticker name documentUrl documentHash decimals
      mintBatonVout quantity = Inr buf \<or>
   createOpReturnMint versionType tokenIdHex mintBatonVout quantity = Inr buf \<or>
   createOpReturnSend versionType tokenIdHex slpAmounts = Inr buf \<longrightarrow>
     take 7 buf = [0x6A, 0x04, 0x53, 0x4C, 0x50, 0x00, 0x01] \<and> 8 \<le> length buf \<and>
     uint (buf ! 7) = versionType"
proof
  assume "createOpReturnGenesis versionType ticker name documentUrl documentHash decimals
      mintBatonVout quantity = Inr buf \<or>
   createOpReturnMint versionType tokenIdHex mintBatonVout quantity = Inr buf \<or>
   createOpReturnSend versionType tokenIdHex slpAmounts = Inr buf"
  then obtain rest where v: "validVersionType versionType"
    and b: "buf = [0x6A, 0x04, 0x53, 0x4C, 0x50, 0x00, 0x01, byteOf versionType] @ rest"
    unfolding genesis_Inr mint_Inr send_Inr by auto
  from b have "take 7 buf = [0x6A, 0x04, 0x53, 0x4C, 0x50, 0x00, 0x01]" "8 \<le> length buf"
      "buf ! 7 = byteOf versionType"
    by simp_all
  with uint_byteOf_version [OF v]
  show "take 7 buf = [0x6A, 0x04, 0x53, 0x4C, 0x50, 0x00, 0x01] \<and> 8 \<le> length buf \<and>
     uint (buf ! 7) = versionType"
    by simp
qed

theorem common_prefix_witness:
  "createOpReturnMint 0x41 (Buf (replicate 32 0xAB)) None (bnOfInt 5) =
     Inr ([0x6A, 0x04, 0x53, 0x4C, 0x50, 0x00, 0x01, 0x41, 0x04, 0x4D, 0x49, 0x4E, 0x54, 0x20] @
          replicate 32 0xAB @ [0x4C, 0x00, 0x08, 0x00, 0x00, 0x00, 0x00, 0x00, 0x00, 0x00, 0x05]) \<and>
   createOpReturnSend 0x81 (Buf (replicate 32 0xAB)) [bnOfInt 5] =
     Inr ([0x6A, 0x04, 0x53, 0x4C, 0x50, 0x00, 0x01, 0x81, 0x04, 0x53, 0x45, 0x4E, 0x44, 0x20] @
          replicate 32 0xAB @ [0x08, 0x00, 0x00, 0x00, 0x00, 0x00, 0x00, 0x00, 0x05]) \<and>
   createOpReturnGenesis 0x41 (Str (js ''NFT'')) (Str (js ''Child'')) (Str (js '''')) (Str (js ''''))
      (num 0) None (bnOfInt 1) =
     Inr [0x6A, 0x04, 0x53, 0x4C, 0x50, 0x00, 0x01, 0x41,
          0x07, 0x47, 0x45, 0x4E, 0x45, 0x53, 0x49, 0x53, 0x03, 0x4E, 0x46, 0x54,
          0x05, 0x43, 0x68, 0x69, 0x6C, 0x64, 0x4C, 0x00, 0x4C, 0x00, 0x01, 0x00, 0x4C, 0x00,
          0x08, 0x00, 0x00, 0x00, 0x00, 0x00, 0x00, 0x00, 0x01] \<and>
   take 7 ([0x6A, 0x04, 0x53, 0x4C, 0x50, 0x00, 0x01, 0x41, 0x04, 0x4D, 0x49, 0x4E, 0x54, 0x20] @
     replicate 32 0xAB @ [0x4C, 0x00, 0x08, 0x00, 0x00, 0x00, 0x00, 0x00, 0x00, 0x00, 0x05]) =
     [0x6A, 0x04, 0x53, 0x4C, 0x50, 0x00, 0x01 :: byte] \<and>
   take 7 ([0x6A, 0x04, 0x53, 0x4C, 0x50, 0x00, 0x01, 0x81, 0x04, 0x53, 0x45, 0x4E, 0x44, 0x20] @
     replicate 32 0xAB @ [0x08, 0x00, 0x00, 0x00, 0x00, 0x00, 0x00, 0x00, 0x05]) =
     [0x6A, 0x04, 0x53, 0x4C, 0x50, 0x00, 0x01 :: byte] \<and>
   take 7 [0x6A, 0x04, 0x53, 0x4C, 0x50, 0x00, 0x01, 0x41,
          0x07, 0x47, 0x45, 0x4E, 0x45, 0x53, 0x49, 0x53, 0x03, 0x4E, 0x46, 0x54,
          0x05, 0x43, 0x68, 0x69, 0x6C, 0x64, 0x4C, 0x00, 0x4C, 0x00, 0x01, 0x00, 0x4C, 0x00,
          0x08, 0x00, 0x00, 0x00, 0x00, 0x00, 0x00, 0x00, 0x01] =
     [0x6A, 0x04, 0x53, 0x4C, 0x50, 0x00, 0x01 :: byte]"
proof -
  have m: "createOpReturnMint 0x41 (Buf (replicate 32 0xAB)) None (bnOfInt 5) =
     Inr ([0x6A, 0x04, 0x53, 0x4C, 0x50, 0x00, 0x01, 0x41, 0x04, 0x4D, 0x49, 0x4E, 0x54, 0x20] @
          replicate 32 0xAB @ [0x4C, 0x00, 0x08, 0x00, 0x00, 0x00, 0x00, 0x00, 0x00, 0x00, 0x05])"
    by code_simp
  have s: "createOpReturnSend 0x81 (Buf (replicate 32 0xAB)) [bnOfInt 5] =
     Inr ([0x6A, 0x04, 0x53, 0x4C, 0x50, 0x00, 0x01, 0x81, 0x04, 0x53, 0x45, 0x4E, 0x44, 0x20] @
          replicate 32 0xAB @ [0x08, 0x00, 0x00, 0x00, 0x00, 0x00, 0x00, 0x00, 0x05])"
    by code_simp
  have g: "createOpReturnGenesis 0x41 (Str (js ''NFT'')) (Str (js ''Child'')) (Str (js ''''))
      (Str (js '''')) (num 0) None (bnOfInt 1) =
     Inr [0x6A, 0x04, 0x53, 0x4C, 0x50, 0x00, 0x01, 0x41,
          0x07, 0x47, 0x45, 0x4E, 0x45, 0x53, 0x49, 0x53, 0x03, 0x4E, 0x46, 0x54,
          0x05, 0x43, 0x68, 0x69, 0x6C, 0x64, 0x4C, 0x00, 0x4C, 0x00, 0x01, 0x00, 0x4C, 0x00,
          0x08, 0x00, 0x00, 0x00, 0x00, 0x00, 0x00, 0x00, 0x01]"
    by code_simp
  note pm = common_prefix [where versionType = "0x41" and tokenIdHex = "Buf (replicate 32 0xAB)"
      and mintBatonVout = None and quantity = "bnOfInt 5",
      THEN mp, OF disjI2, OF disjI1, OF m, THEN conjunct1]
  note ps = common_prefix [where versionType = "0x81" and tokenIdHex = "Buf (replicate 32 0xAB)"
      and slpAmounts = "[bnOfInt 5]", THEN mp, OF disjI2, OF disjI2, OF s, THEN conjunct1]
  note pg = common_prefix [where versionType = "0x41" and ticker = "Str (js ''NFT'')"
      and name = "Str (js ''Child'')" and documentUrl = "Str (js '''')"
      and documentHash = "Str (js '''')" and decimals = "num 0" and mintBatonVout = None
      and quantity = "bnOfInt 1", THEN mp, OF disjI1, OF g, THEN conjunct1]
  from m s g pm ps pg show ?thesis by blast
qed

lemma mint_ok:
  assumes "validVersionType vt" "validTokenId tok"
    "\<forall>v. m = Some v \<longrightarrow> inRange 2 255 v \<or> v = NumberNaN"
    "0 \<le> n" "n \<le> 2 ^ 64 - 1"
  shows "\<exists>buf. createOpReturnMint vt tok m (bnOfInt n) = Inr buf"
proof -
  from assms(2) obtain tid where tid: "checkTokenId tok = Inr tid"
    by (auto simp: validTokenId_check)
  obtain pq where "pushInt64 (bnOfInt n) = Inr pq"
    using pushInt64_bnOfInt [OF assms(4,5)] ..
  with tid assms(1,3) show ?thesis by (simp add: mint_Inr)
qed

text \<open>
  C10. MINT has no child rule: with versionType 0x41, a valid token id, a mintBatonVout
  from 2 to 255 and any quantity from 0 to \<open>2^64 - 1\<close>, it succeeds.
\<close>

theorem mint_child_unrestricted:
  "validTokenId tokenIdHex \<and> 2 \<le> v \<and> v \<le> 255 \<and> 0 \<le> n \<and> n \<le> 2 ^ 64 - 1 \<longrightarrow>
     (\<exists>buf. createOpReturnMint 0x41 tokenIdHex (Some (num v)) (bnOfInt n) = Inr buf)"
proof
  assume h: "validTokenId tokenIdHex \<and> 2 \<le> v \<and> v \<le> 255 \<and> 0 \<le> n \<and> n \<le> 2 ^ 64 - 1"
  have "validVersionType 0x41" by (simp add: validVersionType_def)
  then show "\<exists>buf. createOpReturnMint 0x41 tokenIdHex (Some (num v)) (bnOfInt n) = Inr buf"
    using h by (intro mint_ok) (simp_all add: inRange_num)
qed

theorem mint_child_unrestricted_witness:
  "(\<exists>buf. createOpReturnMint 0x41 (Buf (replicate 32 0xAB)) (Some (num 2)) (bnOfInt 1000) = Inr buf) \<and>
   (\<exists>buf. createOpReturnMint 0x41
      (Str (js ''00112233445566778899aabbccddeeff00112233445566778899AABBCCDDEEFF''))
      (Some (num 255)) (bnOfInt (2 ^ 64 - 1)) = Inr buf)"
proof -
  have v: "validTokenId (Buf (replicate 32 0xAB))"
    by (simp add: validTokenId_def)
  have w: "validTokenId
      (Str (js ''00112233445566778899aabbccddeeff00112233445566778899AABBCCDDEEFF''))"
    by code_simp
  show ?thesis
    using mint_child_unrestricted [of "Buf (replicate 32 0xAB)" 2 1000]
      mint_child_unrestricted
        [of "Str (js ''00112233445566778899aabbccddeeff00112233445566778899AABBCCDDEEFF'')"
          255 "2 ^ 64 - 1"] v w
    by simp
qed

end
